theory Spec2Isabelle
  imports Complex_Main "HOL-Library.Log_Nat"
begin

section \<open>Python values used by \<open>qualitybase/services/utils.py\<close>\<close>

text \<open>
  A Python \<open>str\<close> is a sequence of Unicode code points, and \<open>len\<close> and the padding of
  format specifications count code points. A string is therefore a list of code points;
  \<open>py\<close> turns an ASCII literal into one.
\<close>

type_synonym pystr = "nat list"

definition py :: "string \<Rightarrow> pystr" where
  "py s = map of_char s"

text \<open>
  The values a result dictionary of type \<open>dict[str, Any]\<close> holds in this development:
  \<open>None\<close>, booleans, integers and text. Floats and nested containers are left out.
\<close>

datatype pyval = PNone | PBool bool | PInt int | PStr pystr

text \<open>Truth value testing, as \<open>if x\<close> and \<open>x or y\<close> perform it.\<close>

fun truthy :: "pyval \<Rightarrow> bool" where
  "truthy PNone = False"
| "truthy (PBool b) = b"
| "truthy (PInt n) = (n \<noteq> 0)"
| "truthy (PStr s) = (s \<noteq> [])"

text \<open>
  Decimal rendering of an integer, as \<open>str\<close> gives it (without the limit on the
  number of digits that recent interpreters put on this conversion).
\<close>

fun str_nat :: "nat \<Rightarrow> pystr" where
  "str_nat n = (if n < 10 then [48 + n] else str_nat (n div 10) @ [48 + n mod 10])"

declare str_nat.simps [simp del]

definition str_int :: "int \<Rightarrow> pystr" where
  "str_int i = (if i < 0 then 45 # str_nat (nat (- i)) else str_nat (nat i))"

text \<open>\<open>str(x)\<close>, which is also what \<open>f"{x}"\<close> inserts for these values.\<close>

fun py_str :: "pyval \<Rightarrow> pystr" where
  "py_str PNone = py ''None''"
| "py_str (PBool b) = (if b then py ''True'' else py ''False'')"
| "py_str (PInt n) = str_int n"
| "py_str (PStr s) = s"

text \<open>
  The exceptions raised by the functions of the module itself: \<open>max\<close> of an empty
  sequence (\<open>ValueError\<close>), arithmetic or formatting on a value of the wrong type
  (\<open>TypeError\<close>), indexing an empty sequence (\<open>IndexError\<close>).
\<close>

datatype py_error = TypeError | ValueError | IndexError

text \<open>\<open>s.ljust(w)\<close>, and the format specification \<open><w\<close> on a string: padding, never cutting.\<close>

definition ljust :: "pystr \<Rightarrow> nat \<Rightarrow> pystr" where
  "ljust s w = s @ replicate (w - length s) 32"

text \<open>
  \<open>f"{x:<w}"\<close>: a string is padded on the right; an integer is rendered in decimal and
  padded; a boolean is formatted by \<open>int.__format__\<close>, hence as \<open>1\<close> or \<open>0\<close>;
  \<open>None\<close> rejects a non-empty format specification with \<open>TypeError\<close>.
\<close>

fun format_left :: "pyval \<Rightarrow> nat \<Rightarrow> py_error + pystr" where
  "format_left (PStr s) w = Inr (ljust s w)"
| "format_left (PInt n) w = Inr (ljust (str_int n) w)"
| "format_left (PBool b) w = Inr (ljust (str_int (if b then 1 else 0)) w)"
| "format_left PNone w = Inl TypeError"

text \<open>\<open>sep.join(xs)\<close>.\<close>

fun join :: "pystr \<Rightarrow> pystr list \<Rightarrow> pystr" where
  "join sep [] = []"
| "join sep [x] = x"
| "join sep (x # y # xs) = x @ sep @ join sep (y # xs)"

text \<open>\<open>d.get(key, default)\<close> on a dictionary kept as an association list.\<close>

definition dict_get :: "(pystr \<times> 'v) list \<Rightarrow> pystr \<Rightarrow> 'v \<Rightarrow> 'v" where
  "dict_get d k dflt = (case map_of d k of Some v \<Rightarrow> v | None \<Rightarrow> dflt)"

section \<open>Printing\<close>

text \<open>
  The colour constants are fixed when the module is loaded: the ANSI escape sequences,
  or all empty strings on Windows without \<open>ANSICON\<close>. The flag \<open>ansi\<close> says which.
\<close>

definition BLUE :: "bool \<Rightarrow> pystr" where
  "BLUE ansi = (if ansi then 27 # py ''[94m'' else [])"

definition GREEN :: "bool \<Rightarrow> pystr" where
  "GREEN ansi = (if ansi then 27 # py ''[92m'' else [])"

definition RED :: "bool \<Rightarrow> pystr" where
  "RED ansi = (if ansi then 27 # py ''[91m'' else [])"

definition YELLOW :: "bool \<Rightarrow> pystr" where
  "YELLOW ansi = (if ansi then 27 # py ''[93m'' else [])"

definition NC :: "bool \<Rightarrow> pystr" where
  "NC ansi = (if ansi then 27 # py ''[0m'' else [])"

text \<open>
  The conditions a task can raise. \<open>Exception msg\<close> stands for an instance of any class
  derived from \<open>Exception\<close> whose \<open>str\<close> is \<open>msg\<close>; \<open>KeyboardInterrupt\<close>,
  \<open>SystemExit\<close> and \<open>GeneratorExit\<close> derive from \<open>BaseException\<close> only.
\<close>

datatype py_exception =
  KeyboardInterrupt | SystemExit int | GeneratorExit | Exception pystr

text \<open>
  What a function writes: one event per call of \<open>print\<close> (with the text it is given) on
  standard output or standard error, and one per call of \<open>traceback.print_exc\<close>, which
  writes the trace of the exception being handled.
\<close>

datatype event = Stdout pystr | Stderr pystr | Traceback py_exception

definition print_info :: "bool \<Rightarrow> pystr \<Rightarrow> event list" where
  "print_info ansi message = [Stdout (BLUE ansi @ message @ NC ansi)]"

definition print_error :: "bool \<Rightarrow> pystr \<Rightarrow> event list" where
  "print_error ansi message = [Stderr (RED ansi @ message @ NC ansi)]"

definition print_warning :: "bool \<Rightarrow> pystr \<Rightarrow> event list" where
  "print_warning ansi message = [Stdout (YELLOW ansi @ message @ NC ansi)]"

section \<open>The command dispatcher\<close>

text \<open>
  \<open>run_service_command(command_func, *args, **kwargs)\<close>. The task is a function from its
  arguments to its outcome: the value it returns (\<open>Inr\<close>) or the condition it raises
  (\<open>Inl\<close>). The dispatcher answers with what it printed and either an exit code or the
  condition that leaves it. The handler \<open>except Exception\<close> takes instances of
  \<open>Exception\<close> only; every other condition but \<open>KeyboardInterrupt\<close> passes through.
\<close>

fun run_service_command ::
  "bool \<Rightarrow> ('a \<Rightarrow> py_exception + pyval) \<Rightarrow> 'a \<Rightarrow> event list \<times> (py_exception + int)" where
  "run_service_command ansi command_func args =
     (case command_func args of
        Inr success \<Rightarrow> ([], Inr (if truthy success then 0 else 1))
      | Inl KeyboardInterrupt \<Rightarrow>
          (print_warning ansi (10 # py ''Operation cancelled by user.''), Inr 130)
      | Inl (Exception msg) \<Rightarrow>
          (print_error ansi (py ''Error: '' @ msg) @ [Traceback (Exception msg)], Inr 1)
      | Inl exc \<Rightarrow> ([], Inl exc))"

section \<open>The process executor\<close>

text \<open>
  \<open>subprocess.run\<close> belongs to the standard library and to the operating system. Its
  outcome for one call is one of: a completed process with its return code and, when
  captured, its standard output; \<open>CalledProcessError\<close> (raised under \<open>check\<close> for a
  non-zero return code) with the same two fields; one of the exceptions
  \<open>FileNotFoundError\<close>, \<open>NotADirectoryError\<close> and \<open>PermissionError\<close> with which the
  start of the program can fail; or any other condition. The environment is a function
  from the argument vector and the flags \<open>check\<close> and \<open>capture_output\<close> to this outcome.
\<close>

datatype subprocess_outcome =
  CompletedProcess int "pystr option"
| CalledProcessError int "pystr option"
| FileNotFoundError
| NotADirectoryError
| PermissionError
| OtherCondition

type_synonym subprocess_run = "pystr list \<Rightarrow> bool \<Rightarrow> bool \<Rightarrow> subprocess_outcome"

text \<open>
  What leaves \<open>run_command\<close> when it does not return: a condition of \<open>subprocess.run\<close>
  that no handler takes, or the \<open>IndexError\<close> of \<open>cmd[0]\<close> on an empty vector.
\<close>

datatype run_error = Propagated subprocess_outcome | CmdIndexError

definition run_command ::
  "bool \<Rightarrow> subprocess_run \<Rightarrow> pystr list \<Rightarrow> bool \<Rightarrow> bool
     \<Rightarrow> event list \<times> (run_error + bool \<times> pystr option)" where
  "run_command ansi run cmd check capture_output =
     (let printable = join (py '' '') cmd;
          out = print_info ansi (py ''Running: '' @ printable)
      in case run cmd check capture_output of
           CompletedProcess returncode stdout \<Rightarrow>
             (out, Inr (returncode = 0, if capture_output then stdout else None))
         | CalledProcessError returncode stdout \<Rightarrow>
             (out @ print_error ansi (py ''Command exited with code '' @ str_int returncode),
              Inr (False, if capture_output then stdout else None))
         | FileNotFoundError \<Rightarrow>
             (case cmd of
                [] \<Rightarrow> (out, Inl CmdIndexError)
              | prog # _ \<Rightarrow>
                  (out @ print_error ansi (py ''Command not found: '' @ prog), Inr (False, None)))
         | exc \<Rightarrow> (out, Inl (Propagated exc)))"

text \<open>
  How \<open>subprocess.run\<close> looks for the program on POSIX. The child process tries to
  execute the program from each entry of the search path in turn (from the one path given
  when the name of the program holds a slash). An attempt either executes the program,
  which then runs to its return code and output, or fails with \<open>ENOENT\<close> (no such
  file), \<open>ENOTDIR\<close> (a component of the path is not a directory) or \<open>EACCES\<close>
  (permission denied). When every attempt fails, the error reported is the first that is
  neither \<open>ENOENT\<close> nor \<open>ENOTDIR\<close> if there is one, and the error of the last attempt
  otherwise; the parent raises the exception of that error. There is always at least one
  attempt: an empty search path stands for the current directory. Other errors of an
  attempt are left out.
\<close>

datatype exec_attempt = Executed int pystr | ENOENT | ENOTDIR | EACCES

fun child_exec :: "exec_attempt list \<Rightarrow> exec_attempt option \<Rightarrow> exec_attempt \<Rightarrow> exec_attempt" where
  "child_exec [] saved_errno errno = (case saved_errno of Some e \<Rightarrow> e | None \<Rightarrow> errno)"
| "child_exec (Executed returncode out # rest) saved_errno errno = Executed returncode out"
| "child_exec (e # rest) saved_errno errno =
     child_exec rest
       (if e \<noteq> ENOENT \<and> e \<noteq> ENOTDIR \<and> saved_errno = None then Some e else saved_errno) e"

definition posix_subprocess_run :: "(pystr list \<Rightarrow> exec_attempt list) \<Rightarrow> subprocess_run" where
  "posix_subprocess_run attempts cmd check capture_output =
     (case child_exec (attempts cmd) None ENOENT of
        Executed returncode out \<Rightarrow>
          if check \<and> returncode \<noteq> 0
          then CalledProcessError returncode (if capture_output then Some out else None)
          else CompletedProcess returncode (if capture_output then Some out else None)
      | ENOENT \<Rightarrow> FileNotFoundError
      | ENOTDIR \<Rightarrow> NotADirectoryError
      | EACCES \<Rightarrow> PermissionError)"

text \<open>The program is not found on the search path: no attempt executes it.\<close>

fun failed_attempt :: "exec_attempt \<Rightarrow> bool" where
  "failed_attempt (Executed returncode out) = False"
| "failed_attempt ENOENT = True"
| "failed_attempt ENOTDIR = True"
| "failed_attempt EACCES = True"

definition program_not_found :: "exec_attempt list \<Rightarrow> bool" where
  "program_not_found attempts = list_all failed_attempt attempts"

section \<open>Results and their summary\<close>

text \<open>
  A tool's result is a plain boolean or a dictionary; a result set is a dictionary from
  tool names to results, kept in insertion order.
\<close>

datatype tool_result = Plain bool | Structured "(pystr \<times> pyval) list"

type_synonym result_set = "(pystr \<times> tool_result) list"

text \<open>
  Binary64 arithmetic. A double is a rational \<open>m * 2 ^ e\<close> with \<open>\<bar>m\<bar> < 2 ^ 53\<close>; the
  result of a division or a multiplication is the exact result rounded to the nearest
  double, ties to the even mantissa. The exponent range is not bounded here: quotients of
  counts of entries and their products with 100 stay far inside it.
\<close>

definition floor_log2 :: "rat \<Rightarrow> int" where
  "floor_log2 x =
     (let (a, b) = quotient_of x; k = bitlen a - bitlen b
      in if 2 powi k \<le> x then k else k - 1)"

definition round_half_even :: "rat \<Rightarrow> int" where
  "round_half_even x =
     (let f = \<lfloor>x\<rfloor>; r = x - of_int f
      in if r < 1 / 2 then f else if 1 / 2 < r then f + 1
         else if even f then f else f + 1)"

definition fl :: "rat \<Rightarrow> rat" where
  "fl x =
     (if x = 0 then 0
      else let e = floor_log2 \<bar>x\<bar> - 52
           in of_int (round_half_even (x / 2 powi e)) * 2 powi e)"

text \<open>\<open>a / b\<close> on integers (true division) and \<open>x * y\<close> on a double and an integer.\<close>

definition truediv :: "int \<Rightarrow> int \<Rightarrow> rat" where
  "truediv a b = fl (of_int a / of_int b)"

definition fmul :: "rat \<Rightarrow> int \<Rightarrow> rat" where
  "fmul x n = fl (x * of_int n)"

text \<open>\<open>acc += v\<close> for an integer accumulator: a boolean counts as 1 or 0.\<close>

fun py_add :: "int \<Rightarrow> pyval \<Rightarrow> py_error + int" where
  "py_add a (PInt n) = Inr (a + n)"
| "py_add a (PBool b) = Inr (a + (if b then 1 else 0))"
| "py_add a (PStr s) = Inl TypeError"
| "py_add a PNone = Inl TypeError"

record counters =
  c_passed :: int
  c_failed :: int
  c_errors :: int
  c_warnings :: int

text \<open>One turn of the loop of \<open>summarize_results\<close>.\<close>

fun summarize_step :: "counters \<Rightarrow> pystr \<times> tool_result \<Rightarrow> py_error + counters" where
  "summarize_step c (tool, Structured result) =
     (let status = dict_get result (py ''status'') (PBool False)
      in case py_add (c_errors c) (dict_get result (py ''errors'') (PInt 0)) of
           Inl err \<Rightarrow> Inl err
         | Inr total_errors \<Rightarrow>
             (case py_add (c_warnings c) (dict_get result (py ''warnings'') (PInt 0)) of
                Inl err \<Rightarrow> Inl err
              | Inr total_warnings \<Rightarrow>
                  (let c' = c\<lparr>c_errors := total_errors, c_warnings := total_warnings\<rparr>
                   in if truthy status then Inr (c'\<lparr>c_passed := c_passed c' + 1\<rparr>)
                      else Inr (c'\<lparr>c_failed := c_failed c' + 1\<rparr>))))"
| "summarize_step c (tool, Plain result) =
     (if result then Inr (c\<lparr>c_passed := c_passed c + 1\<rparr>)
      else Inr (c\<lparr>c_failed := c_failed c + 1\<rparr>))"

fun summarize_loop :: "counters \<Rightarrow> result_set \<Rightarrow> py_error + counters" where
  "summarize_loop c [] = Inr c"
| "summarize_loop c (entry # rest) =
     (case summarize_step c entry of
        Inl err \<Rightarrow> Inl err
      | Inr c' \<Rightarrow> summarize_loop c' rest)"

record summary =
  total :: int
  passed :: int
  failed :: int
  success_rate :: rat
  total_errors :: int
  total_warnings :: int

definition summarize_results :: "result_set \<Rightarrow> py_error + summary" where
  "summarize_results results =
     (let n = int (length results)
      in case summarize_loop
                \<lparr>c_passed = 0, c_failed = 0, c_errors = 0, c_warnings = 0\<rparr> results of
           Inl err \<Rightarrow> Inl err
         | Inr c \<Rightarrow>
             Inr \<lparr>total = n, passed = c_passed c, failed = c_failed c,
                  success_rate =
                    (if n > 0 then fmul (truediv (c_passed c) n) 100 else 0),
                  total_errors = c_errors c, total_warnings = c_warnings c\<rparr>)"

section \<open>The results table\<close>

text \<open>\<open>max\<close> of a sequence: \<open>ValueError\<close> when it is empty.\<close>

fun py_max :: "nat list \<Rightarrow> py_error + nat" where
  "py_max [] = Inl ValueError"
| "py_max (x # xs) = Inr (fold max xs x)"

definition PASS :: "bool \<Rightarrow> pystr" where
  "PASS ansi = GREEN ansi @ 10003 # py '' PASS'' @ NC ansi"

definition FAIL :: "bool \<Rightarrow> pystr" where
  "FAIL ansi = RED ansi @ 10007 # py '' FAIL'' @ NC ansi"

text \<open>The status and the details of one entry, as the loop of the table reads them.\<close>

fun entry_status :: "tool_result \<Rightarrow> pyval" where
  "entry_status (Structured result) = dict_get result (py ''status'') (PBool False)"
| "entry_status (Plain result) = PBool result"

fun entry_details :: "tool_result \<Rightarrow> pyval" where
  "entry_details (Structured result) =
     (let details = dict_get result (py ''details'') (PStr []);
          errors = dict_get result (py ''errors'') (PInt 0);
          warnings = dict_get result (py ''warnings'') (PInt 0)
      in if truthy errors \<or> truthy warnings
         then PStr (py ''Errors: '' @ py_str errors @ py '', Warnings: '' @ py_str warnings)
         else details)"
| "entry_details (Plain result) = PStr []"

definition table_row ::
  "bool \<Rightarrow> nat \<Rightarrow> bool \<Rightarrow> pystr \<times> tool_result \<Rightarrow> py_error + pystr" where
  "table_row ansi tool_width show_status entry =
     (let (tool, result) = entry;
          status = entry_status result;
          details = entry_details result;
          status_width = (if show_status then 10 else 0);
          details_width = 50;
          row = ljust tool tool_width;
          row = (if show_status
                 then row @ 32 # ljust (if truthy status then PASS ansi else FAIL ansi)
                                       (status_width + 9)
                 else row)
      in case format_left details details_width of
           Inl err \<Rightarrow> Inl err
         | Inr cell \<Rightarrow> Inr (row @ 32 # cell))"

fun table_rows ::
  "bool \<Rightarrow> nat \<Rightarrow> bool \<Rightarrow> result_set \<Rightarrow> py_error + pystr list" where
  "table_rows ansi tool_width show_status [] = Inr []"
| "table_rows ansi tool_width show_status (entry # rest) =
     (case table_row ansi tool_width show_status entry of
        Inl err \<Rightarrow> Inl err
      | Inr row \<Rightarrow>
          (case table_rows ansi tool_width show_status rest of
             Inl err \<Rightarrow> Inl err
           | Inr rows \<Rightarrow> Inr (row # rows)))"

definition title_lines :: "pystr option \<Rightarrow> pystr list" where
  "title_lines title =
     (case title of
        None \<Rightarrow> []
      | Some t \<Rightarrow> if t = [] then [] else [10 # t, replicate 70 61])"

definition header_line :: "nat \<Rightarrow> bool \<Rightarrow> pystr" where
  "header_line tool_width show_status =
     (let status_width = (if show_status then 10 else 0);
          details_width = 50;
          header = ljust (py ''Tool'') tool_width;
          header = (if show_status then header @ 32 # ljust (py ''Status'') status_width
                    else header)
      in header @ 32 # ljust (py ''Details'') details_width)"

text \<open>The list \<open>lines\<close> that \<open>format_results_table\<close> builds, before it is joined.\<close>

definition table_lines ::
  "bool \<Rightarrow> result_set \<Rightarrow> pystr option \<Rightarrow> bool \<Rightarrow> py_error + pystr list" where
  "table_lines ansi results title show_status =
     (case py_max (map (\<lambda>(k, _). length k) results) of
        Inl err \<Rightarrow> Inl err
      | Inr m \<Rightarrow>
          (let tool_width = (if m + 2 < 20 then 20 else m + 2)
           in case table_rows ansi tool_width show_status results of
                Inl err \<Rightarrow> Inl err
              | Inr rows \<Rightarrow>
                  Inr (title_lines title
                       @ [header_line tool_width show_status, replicate 70 45]
                       @ rows)))"

definition format_results_table ::
  "bool \<Rightarrow> result_set \<Rightarrow> pystr option \<Rightarrow> bool \<Rightarrow> py_error + pystr" where
  "format_results_table ansi results title show_status =
     (case table_lines ansi results title show_status of
        Inl err \<Rightarrow> Inl err
      | Inr lines \<Rightarrow> Inr (join [10] lines))"

section \<open>The JSON rendering\<close>


































text \<open>
  The conditions for which the \<open>try\<close> statement of \<open>run_service_command\<close> has a handler:
  \<open>KeyboardInterrupt\<close> and the instances of \<open>Exception\<close>.
\<close>

fun handled :: "py_exception \<Rightarrow> bool" where
  "handled KeyboardInterrupt = True"
| "handled (Exception msg) = True"
| "handled (SystemExit code) = False"
| "handled GeneratorExit = False"

section \<open>Properties of the dispatcher\<close>

text \<open>
  Claim C1, as the code has it. A task that returns true gives exit code 0 and one that
  returns false gives 1, with nothing printed by the dispatcher. A task that raises
  \<open>KeyboardInterrupt\<close> gives 130 after the cancellation notice alone (a warning whose
  text starts with a line break), with no trace. A task that raises an instance of
  \<open>Exception\<close> gives 1 after an error line with the message and the trace. This is the
  claim with "any other exception" narrowed to the instances of \<open>Exception\<close>.
\<close>

theorem run_service_command_outcomes:
  "(command_func args = Inr (PBool True) \<longrightarrow>
      run_service_command ansi command_func args = ([], Inr 0))
   \<and> (command_func args = Inr (PBool False) \<longrightarrow>
      run_service_command ansi command_func args = ([], Inr 1))
   \<and> (command_func args = Inl KeyboardInterrupt \<longrightarrow>
      run_service_command ansi command_func args =
        ([Stdout (YELLOW ansi @ 10 # py ''Operation cancelled by user.'' @ NC ansi)], Inr 130))
   \<and> (command_func args = Inl (Exception msg) \<longrightarrow>
      run_service_command ansi command_func args =
        ([Stderr (RED ansi @ py ''Error: '' @ msg @ NC ansi), Traceback (Exception msg)],
         Inr 1))"
  by (simp add: print_warning_def print_error_def)

theorem run_service_command_outcomes_witness:
  "run_service_command True (\<lambda>u::unit. Inr (PBool True)) () = ([], Inr 0)
   \<and> run_service_command True (\<lambda>u::unit. Inr (PBool False)) () = ([], Inr 1)
   \<and> run_service_command True (\<lambda>u::unit. Inl KeyboardInterrupt) () =
        ([Stdout (YELLOW True @ 10 # py ''Operation cancelled by user.'' @ NC True)], Inr 130)
   \<and> run_service_command True (\<lambda>u::unit. Inl (Exception (py ''boom''))) () =
        ([Stderr (RED True @ py ''Error: '' @ py ''boom'' @ NC True),
          Traceback (Exception (py ''boom''))], Inr 1)"
  using run_service_command_outcomes [of "\<lambda>u::unit. Inr (PBool True)" "()" True]
    run_service_command_outcomes [of "\<lambda>u::unit. Inr (PBool False)" "()" True]
    run_service_command_outcomes [of "\<lambda>u::unit. Inl KeyboardInterrupt" "()" True]
    run_service_command_outcomes
      [of "\<lambda>u::unit. Inl (Exception (py ''boom''))" "()" True "py ''boom''"]
  by simp

text \<open>
  Claim C1 as stated fails: a task that raises \<open>SystemExit\<close> (it calls \<open>sys.exit(2)\<close>)
  raises an exception other than the user interruption, and the dispatcher neither prints
  an error line nor returns 1: the exception leaves it.
\<close>

theorem run_service_command_system_exit_counterexample:
  "run_service_command True (\<lambda>u::unit. Inl (SystemExit 2)) () = ([], Inl (SystemExit 2))
   \<and> snd (run_service_command True (\<lambda>u::unit. Inl (SystemExit 2)) ()) \<noteq> Inr 1"
  by simp

text \<open>
  Claim C7, as the code has it. The dispatcher ends with one of the exit codes 0, 1 and
  130 exactly when the task returns or raises a condition that has a handler; any other
  condition leaves the dispatcher unchanged, with nothing printed.
\<close>

theorem run_service_command_exit_codes:
  "(snd (run_service_command ansi command_func args) \<in> {Inr 0, Inr 1, Inr 130}
      \<longleftrightarrow> (\<forall>exc. command_func args = Inl exc \<longrightarrow> handled exc))
   \<and> (\<forall>exc. command_func args = Inl exc \<and> \<not> handled exc \<longrightarrow>
          run_service_command ansi command_func args = ([], Inl exc))"
proof (cases "command_func args")
  case (Inl exc)
  then show ?thesis
    by (cases exc) (simp_all add: print_warning_def print_error_def)
next
  case (Inr success)
  then show ?thesis by simp
qed

theorem run_service_command_exit_codes_witness:
  "snd (run_service_command True (\<lambda>u::unit. Inl (Exception (py ''boom''))) ())
     \<in> {Inr 0, Inr 1, Inr 130}
   \<and> \<not> handled GeneratorExit
   \<and> run_service_command True (\<lambda>u::unit. Inl GeneratorExit) () = ([], Inl GeneratorExit)"
proof -
  have "\<forall>exc. (\<lambda>u::unit. Inl (Exception (py ''boom''))) () = Inl exc \<longrightarrow> handled exc"
    by simp
  then have "snd (run_service_command True (\<lambda>u::unit. Inl (Exception (py ''boom''))) ())
     \<in> {Inr 0, Inr 1, Inr 130}"
    using run_service_command_exit_codes
      [of True "\<lambda>u::unit. Inl (Exception (py ''boom''))" "()"] by blast
  moreover have "\<not> handled GeneratorExit" by simp
  moreover have
    "run_service_command True (\<lambda>u::unit. Inl GeneratorExit) () = ([], Inl GeneratorExit)"
    using run_service_command_exit_codes [of True "\<lambda>u::unit. Inl GeneratorExit" "()"]
    by simp
  ultimately show ?thesis by blast
qed

text \<open>
  Claim C7 as stated fails: a task that raises \<open>GeneratorExit\<close> is resolved to none of
  the three exit codes, and the condition propagates to the caller of the dispatcher.
\<close>

theorem run_service_command_propagates_counterexample:
  "snd (run_service_command True (\<lambda>u::unit. Inl GeneratorExit) ()) \<notin> {Inr 0, Inr 1, Inr 130}
   \<and> snd (run_service_command True (\<lambda>u::unit. Inl GeneratorExit) ()) = Inl GeneratorExit"
  by simp

section \<open>Properties of the process executor\<close>

lemma child_exec_failed:
  assumes "list_all failed_attempt attempts"
  shows "child_exec attempts saved_errno errno =
           (case saved_errno of
              Some e \<Rightarrow> e
            | None \<Rightarrow> if EACCES \<in> set attempts then EACCES
                      else if attempts = [] then errno else last attempts)"
  using assms
proof (induction attempts arbitrary: saved_errno errno)
  case Nil
  then show ?case by simp
next
  case (Cons a attempts)
  from Cons.prems have rest: "list_all failed_attempt attempts" by simp
  show ?case
  proof (cases a)
    case (Executed returncode out)
    with Cons.prems show ?thesis by simp
  next
    case ENOENT
    then show ?thesis by (simp add: Cons.IH [OF rest] split: option.splits)
  next
    case ENOTDIR
    then show ?thesis by (simp add: Cons.IH [OF rest] split: option.splits)
  next
    case EACCES
    then show ?thesis by (simp add: Cons.IH [OF rest] split: option.splits)
  qed
qed

text \<open>
  Claim C6, as the code has it. Whenever \<open>subprocess.run\<close> raises \<open>FileNotFoundError\<close>
  for a non-empty argument vector, \<open>run_command\<close> prints the command line, reports
  \<open>Command not found\<close> with the program's name on standard error and returns
  \<open>(False, None)\<close>. For a program that no entry of the search path holds this is what
  happens unless an entry is not accessible or the last entry is not a directory: then
  \<open>subprocess.run\<close> raises \<open>PermissionError\<close> or \<open>NotADirectoryError\<close>, for which
  \<open>run_command\<close> has no handler, and the exception leaves it after the command line
  has been printed.
\<close>

theorem run_command_not_found:
  "(run (prog # argv) check capture_output = FileNotFoundError \<longrightarrow>
      run_command ansi run (prog # argv) check capture_output =
        ([Stdout (BLUE ansi @ py ''Running: '' @ join (py '' '') (prog # argv) @ NC ansi),
          Stderr (RED ansi @ py ''Command not found: '' @ prog @ NC ansi)],
         Inr (False, None)))
   \<and> (program_not_found (attempts (prog # argv)) \<longrightarrow>
      run_command ansi (posix_subprocess_run attempts) (prog # argv) check capture_output =
        (if EACCES \<in> set (attempts (prog # argv))
         then ([Stdout (BLUE ansi @ py ''Running: '' @ join (py '' '') (prog # argv) @ NC ansi)],
               Inl (Propagated PermissionError))
         else if attempts (prog # argv) \<noteq> [] \<and> last (attempts (prog # argv)) = ENOTDIR
         then ([Stdout (BLUE ansi @ py ''Running: '' @ join (py '' '') (prog # argv) @ NC ansi)],
               Inl (Propagated NotADirectoryError))
         else ([Stdout (BLUE ansi @ py ''Running: '' @ join (py '' '') (prog # argv) @ NC ansi),
                Stderr (RED ansi @ py ''Command not found: '' @ prog @ NC ansi)],
               Inr (False, None))))"
proof (intro conjI impI)
  assume "run (prog # argv) check capture_output = FileNotFoundError"
  then show "run_command ansi run (prog # argv) check capture_output =
        ([Stdout (BLUE ansi @ py ''Running: '' @ join (py '' '') (prog # argv) @ NC ansi),
          Stderr (RED ansi @ py ''Command not found: '' @ prog @ NC ansi)],
         Inr (False, None))"
    by (simp add: run_command_def print_info_def print_error_def)
next
  let ?as = "attempts (prog # argv)"
  assume "program_not_found ?as"
  then have f: "list_all failed_attempt ?as" by (simp add: program_not_found_def)
  have c: "child_exec ?as None ENOENT =
             (if EACCES \<in> set ?as then EACCES else if ?as = [] then ENOENT else last ?as)"
    by (simp add: child_exec_failed [OF f])
  have l: "failed_attempt (last ?as)" if "?as \<noteq> []"
    using f that by (simp add: list_all_iff)
  consider (denied) "EACCES \<in> set ?as"
    | (empty) "EACCES \<notin> set ?as" "?as = []"
    | (notdir) "EACCES \<notin> set ?as" "?as \<noteq> []" "last ?as = ENOTDIR"
    | (missing) "EACCES \<notin> set ?as" "?as \<noteq> []" "last ?as = ENOENT"
  proof (cases "EACCES \<in> set ?as")
    case True
    then show ?thesis by (rule denied)
  next
    case False
    show ?thesis
    proof (cases "?as = []")
      case True
      with False show ?thesis by (rule empty)
    next
      case ne: False
      from False ne have "last ?as \<noteq> EACCES" using last_in_set by metis
      with l [OF ne] have "last ?as = ENOTDIR \<or> last ?as = ENOENT"
        by (cases "last ?as") auto
      with False ne notdir missing show ?thesis by blast
    qed
  qed
  then show "run_command ansi (posix_subprocess_run attempts) (prog # argv) check capture_output =
        (if EACCES \<in> set ?as
         then ([Stdout (BLUE ansi @ py ''Running: '' @ join (py '' '') (prog # argv) @ NC ansi)],
               Inl (Propagated PermissionError))
         else if ?as \<noteq> [] \<and> last ?as = ENOTDIR
         then ([Stdout (BLUE ansi @ py ''Running: '' @ join (py '' '') (prog # argv) @ NC ansi)],
               Inl (Propagated NotADirectoryError))
         else ([Stdout (BLUE ansi @ py ''Running: '' @ join (py '' '') (prog # argv) @ NC ansi),
                Stderr (RED ansi @ py ''Command not found: '' @ prog @ NC ansi)],
               Inr (False, None)))"
  proof cases
    case denied
    then show ?thesis
      by (simp add: run_command_def posix_subprocess_run_def c print_info_def)
  next
    case empty
    then show ?thesis
      by (simp add: run_command_def posix_subprocess_run_def c print_info_def print_error_def)
  next
    case notdir
    then show ?thesis
      by (simp add: run_command_def posix_subprocess_run_def c print_info_def)
  next
    case missing
    then show ?thesis
      by (simp add: run_command_def posix_subprocess_run_def c print_info_def print_error_def)
  qed
qed

theorem run_command_not_found_witness:
  "run_command True (\<lambda>cmd check capture. FileNotFoundError)
     [py ''nosuchtool'', py ''--version''] True False =
   ([Stdout (BLUE True @ py ''Running: '' @ py ''nosuchtool --version'' @ NC True),
     Stderr (RED True @ py ''Command not found: '' @ py ''nosuchtool'' @ NC True)],
    Inr (False, None))
   \<and> program_not_found [ENOENT, ENOENT]
   \<and> run_command True (posix_subprocess_run (\<lambda>cmd. [ENOENT, ENOENT]))
       [py ''nosuchtool'', py ''--version''] True False =
     ([Stdout (BLUE True @ py ''Running: '' @ py ''nosuchtool --version'' @ NC True),
       Stderr (RED True @ py ''Command not found: '' @ py ''nosuchtool'' @ NC True)],
      Inr (False, None))
   \<and> program_not_found [EACCES, ENOENT]
   \<and> run_command True (posix_subprocess_run (\<lambda>cmd. [EACCES, ENOENT]))
       [py ''nosuchtool'', py ''--version''] True False =
     ([Stdout (BLUE True @ py ''Running: '' @ py ''nosuchtool --version'' @ NC True)],
      Inl (Propagated PermissionError))"
proof -
  have j: "py ''nosuchtool'' @ py '' '' @ py ''--version'' = py ''nosuchtool --version''"
    by (simp add: py_def)
  have a: "program_not_found [ENOENT, ENOENT]" and b: "program_not_found [EACCES, ENOENT]"
    by (simp_all add: program_not_found_def)
  from run_command_not_found
    [where run = "\<lambda>cmd check capture. FileNotFoundError" and prog = "py ''nosuchtool''"
       and argv = "[py ''--version'']" and check = True and capture_output = False
       and attempts = "\<lambda>cmd. [ENOENT, ENOENT]" and ansi = True]
    run_command_not_found
    [where run = "\<lambda>cmd check capture. FileNotFoundError" and prog = "py ''nosuchtool''"
       and argv = "[py ''--version'']" and check = True and capture_output = False
       and attempts = "\<lambda>cmd. [EACCES, ENOENT]" and ansi = True]
    a b
  show ?thesis by (simp add: j)
qed

text \<open>
  Claim C6 as stated fails: with a search path whose last entry is a regular file, a
  program that no entry holds makes \<open>subprocess.run\<close> raise \<open>NotADirectoryError\<close>.
  \<open>run_command\<close> prints the command line only, reports no \<open>Command not found\<close> and
  does not return \<open>(False, None)\<close>: the exception leaves it.
\<close>

theorem run_command_not_a_directory_counterexample:
  "program_not_found [ENOENT, ENOTDIR]
   \<and> run_command True (posix_subprocess_run (\<lambda>cmd. [ENOENT, ENOTDIR]))
       [py ''nosuchtool''] True False =
     ([Stdout (BLUE True @ py ''Running: '' @ py ''nosuchtool'' @ NC True)],
      Inl (Propagated NotADirectoryError))"
  by (simp add: program_not_found_def run_command_def posix_subprocess_run_def print_info_def)

section \<open>Lemmas on binary64 rounding\<close>

lemma round_half_even_error: "\<bar>of_int (round_half_even y) - y\<bar> \<le> 1 / 2"
proof -
  have "of_int \<lfloor>y\<rfloor> \<le> y" "y < of_int \<lfloor>y\<rfloor> + 1" by linarith+
  then show ?thesis
    by (auto simp: round_half_even_def Let_def)
qed

lemma bitlen_powi_bounds:
  assumes "0 < (a::int)"
  shows "2 powi (bitlen a - 1) \<le> (of_int a :: rat)" and "(of_int a :: rat) < 2 powi bitlen a"
proof -
  from assms have l: "1 \<le> bitlen a"
    using bitlen_bounds [OF assms] bitlen_nonneg [of a] bitlen_eq_zero_iff [of a] by linarith
  from bitlen_bounds [OF assms]
  have lo: "(2::int) ^ nat (bitlen a - 1) \<le> a" and hi: "a < (2::int) ^ nat (bitlen a)" by auto
  have "(of_int ((2::int) ^ nat (bitlen a - 1)) :: rat) \<le> of_int a"
    using lo by (simp only: of_int_le_iff)
  then show "2 powi (bitlen a - 1) \<le> (of_int a :: rat)"
    using l by (simp add: power_int_def)
  have "(of_int a :: rat) < of_int ((2::int) ^ nat (bitlen a))"
    using hi by (simp only: of_int_less_iff)
  then show "(of_int a :: rat) < 2 powi bitlen a"
    using l by (simp add: power_int_def)
qed

lemma floor_log2_bounds:
  assumes "0 < x"
  shows "2 powi floor_log2 x \<le> x" and "x < 2 powi (floor_log2 x + 1)"
proof -
  obtain a b where q: "quotient_of x = (a, b)" by (cases "quotient_of x")
  then have b: "0 < b" and x: "x = of_int a / of_int b"
    using quotient_of_denom_pos quotient_of_div by auto
  from assms x b have a: "0 < a" by (simp add: zero_less_divide_iff)
  let ?k = "bitlen a - bitlen b"
  have B: "0 < (of_int b :: rat)" using b by simp
  have lo: "2 powi (?k - 1) < x"
  proof -
    have "?k - 1 = (bitlen a - 1) - bitlen b" by simp
    then have "2 powi (?k - 1) = (2 powi (bitlen a - 1) :: rat) / 2 powi bitlen b"
      by (simp only: power_int_diff [of "2::rat", simplified])
    also have "\<dots> \<le> of_int a / 2 powi bitlen b"
      using bitlen_powi_bounds(1) [OF a] by (simp add: divide_right_mono)
    also have "\<dots> < of_int a / of_int b"
      using bitlen_powi_bounds(2) [OF b] a B by (simp add: divide_strict_left_mono)
    finally show ?thesis by (simp add: x)
  qed
  have hi: "x < 2 powi (?k + 1)"
  proof -
    have "x = of_int a / of_int b" by (rule x)
    also have "\<dots> < 2 powi bitlen a / of_int b"
      using bitlen_powi_bounds(2) [OF a] B by (simp add: divide_strict_right_mono)
    also have "\<dots> \<le> 2 powi bitlen a / 2 powi (bitlen b - 1)"
      using bitlen_powi_bounds(1) [OF b] by (intro frac_le) simp_all
    also have "\<dots> = 2 powi (?k + 1)"
    proof -
      have "?k + 1 = bitlen a - (bitlen b - 1)" by simp
      then show ?thesis
        by (simp only: power_int_diff [of "2::rat", simplified])
    qed
    finally show ?thesis .
  qed
  show "2 powi floor_log2 x \<le> x"
    using lo by (auto simp: floor_log2_def q Let_def)
  show "x < 2 powi (floor_log2 x + 1)"
    using hi by (auto simp: floor_log2_def q Let_def)
qed

lemma fl_error:
  assumes "0 < x"
  shows "\<bar>fl x - x\<bar> \<le> x / 2 ^ 53"
proof -
  define e where "e = floor_log2 x - 52"
  define p :: rat where "p = 2 powi e"
  have p: "0 < p" by (simp add: p_def)
  have f: "fl x = of_int (round_half_even (x / p)) * p"
    using assms by (simp add: fl_def e_def p_def Let_def)
  have "fl x - x = (of_int (round_half_even (x / p)) - x / p) * p"
    using p by (simp add: f field_simps)
  then have "\<bar>fl x - x\<bar> = \<bar>of_int (round_half_even (x / p)) - x / p\<bar> * p"
    using p by (simp add: abs_mult)
  also have "\<dots> \<le> 1 / 2 * p"
    using round_half_even_error [of "x / p"] p by (simp add: mult_right_mono)
  finally have 1: "\<bar>fl x - x\<bar> \<le> p / 2" by simp
  have "2 powi floor_log2 x = p * 2 ^ 52"
  proof -
    have "floor_log2 x = e + 52" by (simp add: e_def)
    then show ?thesis by (simp add: p_def power_int_add)
  qed
  with floor_log2_bounds(1) [OF assms] have "p * 2 ^ 52 \<le> x" by simp
  then have "p / 2 \<le> x / 2 ^ 53" by simp
  with 1 show ?thesis by linarith
qed

lemma fl_zero: "fl 0 = 0"
  by (simp add: fl_def)


lemma success_rate_error:
  assumes "0 \<le> p" and "0 < t"
  shows "\<bar>fmul (truediv p t) 100 - 100 * of_int p / of_int t\<bar>
           \<le> (100 * of_int p / of_int t) / 2 ^ 51"
proof (cases "p = 0")
  case True
  then show ?thesis by (simp add: fmul_def truediv_def fl_zero)
next
  case False
  define q :: rat where "q = of_int p / of_int t"
  define a where "a = fl q"
  define r where "r = fl (a * 100)"
  from False assms have q: "0 < q" by (simp add: q_def)
  have 1: "\<bar>a - q\<bar> \<le> q / 2 ^ 53" unfolding a_def using q by (rule fl_error)
  have u: "(2::rat) ^ 53 = 9007199254740992" by simp
  from 1 have "\<bar>a - q\<bar> \<le> q / 9007199254740992" unfolding u .
  then have e1: "q - a \<le> q / 9007199254740992" "a - q \<le> q / 9007199254740992"
    by linarith+
  with q have a: "0 < a * 100" by linarith
  have 2: "\<bar>r - a * 100\<bar> \<le> a * 100 / 2 ^ 53" unfolding r_def using a by (rule fl_error)
  from 2 have "\<bar>r - a * 100\<bar> \<le> a * 100 / 9007199254740992" unfolding u .
  then have e2: "r - a * 100 \<le> a * 100 / 9007199254740992"
    "a * 100 - r \<le> a * 100 / 9007199254740992"
    by linarith+
  from e1 e2 q have "r - 100 * q \<le> (100 * q) / 2251799813685248"
    "100 * q - r \<le> (100 * q) / 2251799813685248"
    by linarith+
  then have "\<bar>r - 100 * q\<bar> \<le> (100 * q) / 2251799813685248" by linarith
  then have "\<bar>r - 100 * q\<bar> \<le> (100 * q) / 2 ^ 51" by simp
  then show ?thesis by (simp add: fmul_def truediv_def q_def a_def r_def)
qed

section \<open>Lemmas on the summary loop and the table rows\<close>

lemma summarize_loop_append:
  "summarize_loop c (xs @ ys) =
     (case summarize_loop c xs of Inl err \<Rightarrow> Inl err | Inr c' \<Rightarrow> summarize_loop c' ys)"
  by (induction xs arbitrary: c) (auto split: sum.splits)

lemma py_add_from_zero:
  "py_add a v = (case py_add 0 v of Inl err \<Rightarrow> Inl err | Inr n \<Rightarrow> Inr (a + n))"
  by (cases v) auto

lemma summarize_step_Structured:
  "summarize_step c (tool, Structured result) =
     (case py_add 0 (dict_get result (py ''errors'') (PInt 0)) of
        Inl err \<Rightarrow> Inl err
      | Inr e \<Rightarrow>
          (case py_add 0 (dict_get result (py ''warnings'') (PInt 0)) of
             Inl err \<Rightarrow> Inl err
           | Inr w \<Rightarrow>
               Inr \<lparr>c_passed = c_passed c
                       + (if truthy (dict_get result (py ''status'') (PBool False)) then 1 else 0),
                    c_failed = c_failed c
                       + (if truthy (dict_get result (py ''status'') (PBool False)) then 0 else 1),
                    c_errors = c_errors c + e,
                    c_warnings = c_warnings c + w\<rparr>))"
  by (cases "dict_get result (py ''errors'') (PInt 0)";
      cases "dict_get result (py ''warnings'') (PInt 0)"; cases c)
     (simp_all add: Let_def)

lemma summarize_step_Plain:
  "summarize_step c (tool, Plain b) =
     Inr \<lparr>c_passed = c_passed c + (if b then 1 else 0),
          c_failed = c_failed c + (if b then 0 else 1),
          c_errors = c_errors c, c_warnings = c_warnings c\<rparr>"
  by (cases c) simp

lemma summarize_step_shift:
  assumes "summarize_step c entry = Inr c'"
  shows "summarize_step d entry =
           Inr \<lparr>c_passed = c_passed d + (c_passed c' - c_passed c),
                c_failed = c_failed d + (c_failed c' - c_failed c),
                c_errors = c_errors d + (c_errors c' - c_errors c),
                c_warnings = c_warnings d + (c_warnings c' - c_warnings c)\<rparr>"
proof (cases entry)
  case (Pair tool r)
  show ?thesis
  proof (cases r)
    case (Plain b)
    with Pair assms show ?thesis by (auto simp del: summarize_step.simps simp: summarize_step_Plain)
  next
    case (Structured result)
    with Pair assms show ?thesis
      by (auto simp del: summarize_step.simps simp: summarize_step_Structured split: sum.splits)
  qed
qed

lemma summarize_step_counts:
  assumes "summarize_step c entry = Inr c'"
  shows "c_passed c' = c_passed c + (if truthy (entry_status (snd entry)) then 1 else 0)
       \<and> c_failed c' = c_failed c + (if truthy (entry_status (snd entry)) then 0 else 1)"
proof (cases entry)
  case (Pair tool r)
  show ?thesis
  proof (cases r)
    case (Plain b)
    with Pair assms show ?thesis by (auto simp del: summarize_step.simps simp: summarize_step_Plain)
  next
    case (Structured result)
    with Pair assms show ?thesis
      by (auto simp del: summarize_step.simps simp: summarize_step_Structured split: sum.splits)
  qed
qed

lemma summarize_loop_shift:
  "summarize_loop c rs = Inr c' \<Longrightarrow>
   summarize_loop d rs =
     Inr \<lparr>c_passed = c_passed d + (c_passed c' - c_passed c),
          c_failed = c_failed d + (c_failed c' - c_failed c),
          c_errors = c_errors d + (c_errors c' - c_errors c),
          c_warnings = c_warnings d + (c_warnings c' - c_warnings c)\<rparr>"
proof (induction rs arbitrary: c d)
  case Nil
  then show ?case by simp
next
  case (Cons entry rest)
  from Cons.prems obtain c1 where
    s: "summarize_step c entry = Inr c1" and l: "summarize_loop c1 rest = Inr c'"
    by (auto split: sum.splits)
  let ?d1 = "\<lparr>c_passed = c_passed d + (c_passed c1 - c_passed c),
                c_failed = c_failed d + (c_failed c1 - c_failed c),
                c_errors = c_errors d + (c_errors c1 - c_errors c),
                c_warnings = c_warnings d + (c_warnings c1 - c_warnings c)\<rparr>"
  have "summarize_step d entry = Inr ?d1" using s by (rule summarize_step_shift)
  moreover have "summarize_loop ?d1 rest = 
     Inr \<lparr>c_passed = c_passed ?d1 + (c_passed c' - c_passed c1),
          c_failed = c_failed ?d1 + (c_failed c' - c_failed c1),
          c_errors = c_errors ?d1 + (c_errors c' - c_errors c1),
          c_warnings = c_warnings ?d1 + (c_warnings c' - c_warnings c1)\<rparr>"
    using l by (rule Cons.IH)
  ultimately show ?case by simp
qed

lemma summarize_loop_counts:
  "summarize_loop c rs = Inr c' \<Longrightarrow>
   c_passed c' = c_passed c + int (length (filter (\<lambda>e. truthy (entry_status (snd e))) rs))
   \<and> c_failed c' = c_failed c + int (length (filter (\<lambda>e. \<not> truthy (entry_status (snd e))) rs))"
proof (induction rs arbitrary: c)
  case Nil
  then show ?case by simp
next
  case (Cons entry rest)
  from Cons.prems obtain c1 where
    s: "summarize_step c entry = Inr c1" and l: "summarize_loop c1 rest = Inr c'"
    by (auto split: sum.splits)
  from summarize_step_counts [OF s] Cons.IH [OF l] show ?case by simp
qed

lemma table_row_eq:
  "table_row ansi w show_status (tool, r) =
     (case format_left (entry_details r) 50 of
        Inl err \<Rightarrow> Inl err
      | Inr cell \<Rightarrow>
          Inr (ljust tool w
               @ (if show_status
                  then 32 # ljust (if truthy (entry_status r) then PASS ansi else FAIL ansi) 19
                  else [])
               @ 32 # cell))"
  by (simp add: table_row_def Let_def split: sum.splits)

lemma table_rows_nth:
  "table_rows ansi w show_status results = Inr rows \<Longrightarrow>
   length rows = length results
   \<and> (\<forall>i<length results. table_row ansi w show_status (results ! i) = Inr (rows ! i))"
proof (induction results arbitrary: rows)
  case Nil
  then show ?case by simp
next
  case (Cons entry rest)
  from Cons.prems obtain row rows' where
    r: "table_row ansi w show_status entry = Inr row"
    and rs: "table_rows ansi w show_status rest = Inr rows'"
    and eq: "rows = row # rows'"
    by (auto split: sum.splits)
  from Cons.IH [OF rs] r eq show ?case
    by (auto simp: nth_Cons split: nat.splits)
qed

lemma table_lines_nth:
  assumes "table_lines ansi results title show_status = Inr lines"
    and "i < length results"
  shows "\<exists>w\<ge>20. table_row ansi w show_status (results ! i) =
           Inr (lines ! (length (title_lines title) + 2 + i))"
proof -
  from assms(1) obtain m rows where
    rows: "table_rows ansi (if m + 2 < 20 then 20 else m + 2) show_status results = Inr rows"
    and lines: "lines = title_lines title
       @ [header_line (if m + 2 < 20 then 20 else m + 2) show_status, replicate 70 45] @ rows"
    by (auto simp: table_lines_def Let_def split: sum.splits)
  let ?w = "if m + 2 < 20 then 20 else m + 2"
  from table_rows_nth [OF rows] assms(2)
  have "table_row ansi ?w show_status (results ! i) = Inr (rows ! i)" by simp
  moreover have "lines ! (length (title_lines title) + 2 + i) = rows ! i"
    by (simp add: lines nth_append)
  moreover have "20 \<le> ?w" by simp
  ultimately show ?thesis by metis
qed

lemma summarize_loop_replace:
  assumes "\<And>c. summarize_step c e1 = summarize_step c e2"
  shows "summarize_loop c (pre @ e1 # post) = summarize_loop c (pre @ e2 # post)"
  by (simp add: summarize_loop_append assms del: summarize_step.simps split: sum.splits)

lemma table_rows_replace:
  assumes "table_row ansi w show_status e1 = table_row ansi w show_status e2"
  shows "table_rows ansi w show_status (pre @ e1 # post) =
         table_rows ansi w show_status (pre @ e2 # post)"
proof (induction pre)
  case Nil
  show ?case by (simp add: assms)
next
  case (Cons a pre)
  then show ?case by (simp only: append_Cons table_rows.simps)
qed

lemma summarize_results_counts:
  assumes "summarize_results results = Inr s"
  shows "total s = int (length results)"
    and "passed s = int (length (filter (\<lambda>e. truthy (entry_status (snd e))) results))"
    and "failed s = int (length (filter (\<lambda>e. \<not> truthy (entry_status (snd e))) results))"
    and "success_rate s = (if 0 < total s then fmul (truediv (passed s) (total s)) 100 else 0)"
proof -
  from assms obtain c where
    l: "summarize_loop \<lparr>c_passed = 0, c_failed = 0, c_errors = 0, c_warnings = 0\<rparr> results
          = Inr c"
    and s: "s = \<lparr>total = int (length results), passed = c_passed c, failed = c_failed c,
               success_rate = (if int (length results) > 0
                               then fmul (truediv (c_passed c) (int (length results))) 100
                               else 0),
               total_errors = c_errors c, total_warnings = c_warnings c\<rparr>"
    by (auto simp: summarize_results_def Let_def split: sum.splits)
  from summarize_loop_counts [OF l] s
  show "total s = int (length results)"
    and "passed s = int (length (filter (\<lambda>e. truthy (entry_status (snd e))) results))"
    and "failed s = int (length (filter (\<lambda>e. \<not> truthy (entry_status (snd e))) results))"
    and "success_rate s = (if 0 < total s then fmul (truediv (passed s) (total s)) 100 else 0)"
    by simp_all
qed

lemma summarize_loop_returns:
  assumes "\<forall>(tool, r) \<in> set results. \<forall>d. r = Structured d \<longrightarrow>
             (\<exists>e. py_add 0 (dict_get d (py ''errors'') (PInt 0)) = Inr e)
             \<and> (\<exists>w. py_add 0 (dict_get d (py ''warnings'') (PInt 0)) = Inr w)"
  shows "\<exists>c'. summarize_loop c results = Inr c'"
  using assms
proof (induction results arbitrary: c)
  case Nil
  then show ?case by simp
next
  case (Cons entry rest)
  obtain tool r where e: "entry = (tool, r)" by (cases entry)
  have "\<exists>c1. summarize_step c entry = Inr c1"
  proof (cases r)
    case (Plain b)
    with e show ?thesis by (simp add: summarize_step_Plain del: summarize_step.simps)
  next
    case (Structured d)
    with e Cons.prems show ?thesis
      by (auto simp: summarize_step_Structured simp del: summarize_step.simps)
  qed
  then obtain c1 where "summarize_step c entry = Inr c1" ..
  moreover from Cons.prems have "\<exists>c'. summarize_loop c1 rest = Inr c'"
    by (intro Cons.IH) auto
  ultimately show ?case by (simp del: summarize_step.simps)
qed

lemma summarize_results_returns:
  assumes "\<forall>(tool, r) \<in> set results. \<forall>d. r = Structured d \<longrightarrow>
             (\<exists>e. py_add 0 (dict_get d (py ''errors'') (PInt 0)) = Inr e)
             \<and> (\<exists>w. py_add 0 (dict_get d (py ''warnings'') (PInt 0)) = Inr w)"
  shows "\<exists>s. summarize_results results = Inr s"
proof -
  from summarize_loop_returns [OF assms] obtain c where
    "summarize_loop \<lparr>c_passed = 0, c_failed = 0, c_errors = 0, c_warnings = 0\<rparr> results
       = Inr c"
    by blast
  then show ?thesis by (simp add: summarize_results_def Let_def)
qed

lemma dict_get_Cons:
  "dict_get ((k, v) # d) k' dflt = (if k = k' then v else dict_get d k' dflt)"
  by (simp add: dict_get_def)

lemma py_keys_distinct:
  "py ''status'' \<noteq> py ''details''" "py ''status'' \<noteq> py ''errors''"
  "py ''status'' \<noteq> py ''warnings''"
  by (simp_all add: py_def)

lemma summarize_results_replace:
  assumes "\<And>c. summarize_step c e1 = summarize_step c e2"
  shows "summarize_results (pre @ e1 # post) = summarize_results (pre @ e2 # post)"
  by (simp add: summarize_results_def summarize_loop_replace [OF assms])

lemma table_lines_replace:
  assumes "\<And>w. table_row ansi w show_status (tool, r1) = table_row ansi w show_status (tool, r2)"
  shows "table_lines ansi (pre @ (tool, r1) # post) title show_status =
         table_lines ansi (pre @ (tool, r2) # post) title show_status"
  by (simp add: table_lines_def table_rows_replace [OF assms] Let_def cong: sum.case_cong)

lemma py_max_Inr:
  assumes "py_max xs = Inr m"
  shows "xs \<noteq> [] \<and> m = Max (set xs)"
proof (cases xs)
  case Nil
  with assms show ?thesis by simp
next
  case (Cons a list)
  with assms have "m = fold max list a" by simp
  also have "\<dots> = Max (set (a # list))" by (rule Max.set_eq_fold [symmetric])
  finally show ?thesis by (simp add: Cons)
qed

lemma format_results_table_Inr:
  assumes "format_results_table ansi results title show_status = Inr out"
  shows "\<exists>rows.
           table_rows ansi (max 20 (Max (set (map (\<lambda>(k, r). length k) results)) + 2)) show_status results = Inr rows
         \<and> out = join [10] (title_lines title
                             @ [header_line (max 20 (Max (set (map (\<lambda>(k, r). length k) results)) + 2)) show_status, replicate 70 45] @ rows)"
proof -
  from assms obtain m rows where
    m: "py_max (map (\<lambda>(k, r). length k) results) = Inr m"
    and rows: "table_rows ansi (if m + 2 < 20 then 20 else m + 2) show_status results = Inr rows"
    and out: "out = join [10] (title_lines title
       @ [header_line (if m + 2 < 20 then 20 else m + 2) show_status, replicate 70 45] @ rows)"
    by (auto simp: format_results_table_def table_lines_def Let_def split: sum.splits)
  from py_max_Inr [OF m] have "m = Max (set (map (\<lambda>(k, r). length k) results))" by simp
  then have "(if m + 2 < 20 then 20 else m + 2) = max 20 (Max (set (map (\<lambda>(k, r). length k) results)) + 2)"
    by (simp add: max_def)
  with rows out show ?thesis by auto
qed

lemma format_results_table_row:
  assumes "format_results_table ansi results title show_status = Inr out"
    and "i < length results"
    and "\<And>w. table_row ansi w show_status (results ! i) = Inr (row w)"
  shows "\<exists>rows.
           length rows = length results
         \<and> rows ! i = row (max 20 (Max (set (map (\<lambda>(k, r). length k) results)) + 2))
         \<and> out = join [10] (title_lines title
                             @ [header_line (max 20 (Max (set (map (\<lambda>(k, r). length k) results)) + 2)) show_status, replicate 70 45] @ rows)"
proof -
  from format_results_table_Inr [OF assms(1)] obtain rows where
    rows: "table_rows ansi (max 20 (Max (set (map (\<lambda>(k, r). length k) results)) + 2)) show_status results = Inr rows"
    and out: "out = join [10] (title_lines title
                             @ [header_line (max 20 (Max (set (map (\<lambda>(k, r). length k) results)) + 2)) show_status, replicate 70 45] @ rows)"
    by blast
  from table_rows_nth [OF rows] assms(2)
  have "length rows = length results"
    and "table_row ansi (max 20 (Max (set (map (\<lambda>(k, r). length k) results)) + 2)) show_status (results ! i) = Inr (rows ! i)"
    by simp_all
  with assms(3) [of "max 20 (Max (set (map (\<lambda>(k, r). length k) results)) + 2)"] have "rows ! i = row (max 20 (Max (set (map (\<lambda>(k, r). length k) results)) + 2))" by simp
  with \<open>length rows = length results\<close> out show ?thesis by blast
qed

lemma table_row_errors_warnings:
  assumes "dict_get result (py ''errors'') (PInt 0) = PInt n"
    and "dict_get result (py ''warnings'') (PInt 0) = PInt m"
    and "n \<noteq> 0 \<or> m \<noteq> 0"
  shows "table_row ansi w show_status (tool, Structured result) =
           Inr (ljust tool w
                @ (if show_status
                   then 32 # ljust (if truthy (dict_get result (py ''status'') (PBool False))
                                    then PASS ansi else FAIL ansi) 19
                   else [])
                @ 32 # ljust (py ''Errors: '' @ str_int n @ py '', Warnings: '' @ str_int m) 50)"
  using assms by (auto simp: table_row_eq Let_def)

lemma table_row_long_details:
  assumes "dict_get result (py ''details'') (PStr []) = PStr s"
    and "\<not> truthy (dict_get result (py ''errors'') (PInt 0))"
    and "\<not> truthy (dict_get result (py ''warnings'') (PInt 0))"
    and "50 < length s"
  shows "table_row ansi w show_status (tool, Structured result) =
           Inr (ljust tool w
                @ (if show_status
                   then 32 # ljust (if truthy (dict_get result (py ''status'') (PBool False))
                                    then PASS ansi else FAIL ansi) 19
                   else [])
                @ 32 # s)"
  using assms by (auto simp: table_row_eq Let_def ljust_def)

section \<open>Properties of the aggregator and the renderers\<close>

text \<open>
  Claim C9. On the empty result set \<open>format_results_table\<close> raises \<open>ValueError\<close> (the
  maximum over the tool names is taken over an empty sequence), whatever the title and
  the status flag, while \<open>summarize_results\<close> returns a summary whose total is 0.
\<close>

theorem empty_result_set:
  "format_results_table ansi [] title show_status = Inl ValueError
   \<and> summarize_results [] =
       Inr \<lparr>total = 0, passed = 0, failed = 0, success_rate = 0,
            total_errors = 0, total_warnings = 0\<rparr>"
  by (simp add: format_results_table_def table_lines_def summarize_results_def)

text \<open>
  Claim C2, as the code has it. Whenever \<open>summarize_results\<close> returns (it does unless an
  \<open>errors\<close> or \<open>warnings\<close> value cannot be added to an integer), \<open>passed + failed\<close> is
  \<open>total\<close>, the number of entries; the success rate is 0 when \<open>total\<close> is 0; and when
  \<open>total\<close> is positive it is \<open>passed / total * 100\<close> in binary64 arithmetic, the division
  rounded first and the product rounded after, which lies within a relative error of
  \<open>2 ^ -51\<close> of the exact \<open>100 * passed / total\<close>.
\<close>

theorem summarize_results_invariants:
  assumes "summarize_results results = Inr s"
  shows "passed s + failed s = total s
     \<and> total s = int (length results)
     \<and> (total s = 0 \<longrightarrow> success_rate s = 0)
     \<and> (0 < total s \<longrightarrow>
          success_rate s = fl (fl (of_int (passed s) / of_int (total s)) * 100)
          \<and> \<bar>success_rate s - 100 * of_int (passed s) / of_int (total s)\<bar>
               \<le> (100 * of_int (passed s) / of_int (total s)) / 2 ^ 51)"
proof -
  note c = summarize_results_counts [OF assms]
  have "passed s + failed s = int (length results)"
    unfolding c(2) c(3) using sum_length_filter_compl [of "\<lambda>e. truthy (entry_status (snd e))" results]
    by simp
  moreover have "0 \<le> passed s" by (simp add: c(2))
  then have "0 < total s \<Longrightarrow>
      \<bar>fmul (truediv (passed s) (total s)) 100 - 100 * of_int (passed s) / of_int (total s)\<bar>
        \<le> (100 * of_int (passed s) / of_int (total s)) / 2 ^ 51"
    by (rule success_rate_error)
  ultimately show ?thesis
    using c(1) c(4) by (simp add: fmul_def truediv_def)
qed

theorem summarize_results_invariants_witness:
  "summarize_results
     [(py ''lint'', Plain True),
      (py ''types'', Structured [(py ''status'', PBool False), (py ''errors'', PInt 3),
                                (py ''warnings'', PInt 1)])] =
     Inr \<lparr>total = 2, passed = 1, failed = 1, success_rate = 50,
          total_errors = 3, total_warnings = 1\<rparr>
   \<and> (1::int) + 1 = 2 \<and> (0::int) < 2
   \<and> (50::rat) = fl (fl (of_int 1 / of_int 2) * 100)
   \<and> \<bar>(50::rat) - 100 * of_int 1 / of_int 2\<bar> \<le> (100 * of_int 1 / of_int 2) / 2 ^ 51
   \<and> summarize_results [] =
       Inr \<lparr>total = 0, passed = 0, failed = 0, success_rate = 0,
            total_errors = 0, total_warnings = 0\<rparr>"
proof -
  have a: "summarize_results
     [(py ''lint'', Plain True),
      (py ''types'', Structured [(py ''status'', PBool False), (py ''errors'', PInt 3),
                                (py ''warnings'', PInt 1)])] =
     Inr \<lparr>total = 2, passed = 1, failed = 1, success_rate = 50,
          total_errors = 3, total_warnings = 1\<rparr>"
    by code_simp
  have b: "summarize_results [] =
       Inr \<lparr>total = 0, passed = 0, failed = 0, success_rate = 0,
            total_errors = 0, total_warnings = 0\<rparr>"
    by (simp add: summarize_results_def)
  from summarize_results_invariants [OF a] summarize_results_invariants [OF b] a b
  show ?thesis by simp
qed

text \<open>
  Claim C2 as stated fails in its last part: for one passed entry out of three the code
  returns the double \<open>1 / 3 * 100 = 33.33333333333333\<close>, which is neither the exact
  \<open>100 / 3\<close> nor the double \<open>100 * 1 / 3 = 33.333333333333336\<close>.
\<close>

theorem success_rate_counterexample:
  "summarize_results
     [(py ''a'', Plain True), (py ''b'', Plain False), (py ''c'', Plain False)] =
     Inr \<lparr>total = 3, passed = 1, failed = 2,
          success_rate = 4691249611844266 / 140737488355328,
          total_errors = 0, total_warnings = 0\<rparr>
   \<and> (4691249611844266 / 140737488355328 :: rat) \<noteq> 100 * of_int 1 / of_int 3
   \<and> (4691249611844266 / 140737488355328 :: rat) \<noteq> fl (100 * of_int 1 / of_int 3)"
  by code_simp

text \<open>
  Claim C8. A structured entry whose status is the boolean \<open>b\<close> and whose errors and
  warnings are absent or zero can be exchanged for the plain boolean \<open>b\<close> anywhere in a
  result set without changing the outcome of \<open>summarize_results\<close>: every field of the
  summary is the same.
\<close>

theorem plain_and_structured_same_summary:
  assumes "dict_get result (py ''status'') (PBool False) = PBool b"
    and "dict_get result (py ''errors'') (PInt 0) = PInt 0"
    and "dict_get result (py ''warnings'') (PInt 0) = PInt 0"
  shows "summarize_results (pre @ (tool, Structured result) # post) =
         summarize_results (pre @ (tool, Plain b) # post)"
proof (rule summarize_results_replace)
  fix c
  show "summarize_step c (tool, Structured result) = summarize_step c (tool, Plain b)"
    using assms
    by (simp add: summarize_step_Structured summarize_step_Plain del: summarize_step.simps)
qed

theorem plain_and_structured_same_summary_witness:
  "summarize_results
     [(py ''lint'', Plain False), (py ''types'', Structured [(py ''status'', PBool True)]),
      (py ''tests'', Structured [(py ''errors'', PInt 2)])] =
   summarize_results
     [(py ''lint'', Plain False), (py ''types'', Plain True),
      (py ''tests'', Structured [(py ''errors'', PInt 2)])]
   \<and> summarize_results
     [(py ''lint'', Plain False), (py ''types'', Plain True),
      (py ''tests'', Structured [(py ''errors'', PInt 2)])] =
     Inr \<lparr>total = 3, passed = 1, failed = 2,
          success_rate = 4691249611844266 / 140737488355328,
          total_errors = 2, total_warnings = 0\<rparr>"
proof -
  let ?d = "[(py ''status'', PBool True)]"
  have st: "dict_get ?d (py ''status'') (PBool False) = PBool True"
    and e: "dict_get ?d (py ''errors'') (PInt 0) = PInt 0"
    and w: "dict_get ?d (py ''warnings'') (PInt 0) = PInt 0"
    by (simp_all add: dict_get_def py_def)
  have "summarize_results
     [(py ''lint'', Plain False), (py ''types'', Plain True),
      (py ''tests'', Structured [(py ''errors'', PInt 2)])] =
     Inr \<lparr>total = 3, passed = 1, failed = 2,
          success_rate = 4691249611844266 / 140737488355328,
          total_errors = 2, total_warnings = 0\<rparr>"
    by code_simp
  with plain_and_structured_same_summary
         [OF st e w, of "[(py ''lint'', Plain False)]" "py ''types''"
            "[(py ''tests'', Structured [(py ''errors'', PInt 2)])]"]
  show ?thesis by simp
qed

text \<open>
  Claim C5. For a structured entry whose errors or warnings count is not zero, the table
  that \<open>format_results_table\<close> returns shows \<open>Errors: N, Warnings: M\<close> in the details
  column of the entry's row (padded to 50 characters), whatever the entry holds under
  \<open>details\<close>. The returned text is the title lines, the header and the rule, then one
  row for each entry, joined by line breaks; the row of the entry is the name padded to the
  width of the name column, the status column when it is shown, and that details cell.
\<close>

theorem table_errors_warnings_override:
  assumes "dict_get result (py ''errors'') (PInt 0) = PInt n"
    and "dict_get result (py ''warnings'') (PInt 0) = PInt m"
    and "n \<noteq> 0 \<or> m \<noteq> 0"
    and "i < length results"
    and "results ! i = (tool, Structured result)"
    and "format_results_table ansi results title show_status = Inr out"
  shows "\<exists>w rows.
           w = max 20 (Max (set (map (\<lambda>(k, r). length k) results)) + 2)
         \<and> length rows = length results
         \<and> rows ! i = ljust tool w
                    @ (if show_status
                       then 32 # ljust (if truthy (dict_get result (py ''status'') (PBool False))
                                        then PASS ansi else FAIL ansi) 19
                       else [])
                    @ 32 # ljust (py ''Errors: '' @ str_int n @ py '', Warnings: '' @ str_int m) 50
         \<and> out = join [10] (title_lines title
                             @ [header_line w show_status, replicate 70 45] @ rows)"
proof -
  have "table_row ansi w show_status (results ! i) =
          Inr (ljust tool w
                @ (if show_status
                   then 32 # ljust (if truthy (dict_get result (py ''status'') (PBool False))
                                    then PASS ansi else FAIL ansi) 19
                   else [])
                @ 32 # ljust (py ''Errors: '' @ str_int n @ py '', Warnings: '' @ str_int m) 50)" for w
    unfolding assms(5) using assms(1-3) by (rule table_row_errors_warnings)
  from format_results_table_row [OF assms(6) assms(4) this] show ?thesis by blast
qed

theorem table_errors_warnings_override_witness:
  "\<exists>out rows.
     format_results_table True
       [(py ''lint'', Plain True),
        (py ''types'', Structured [(py ''status'', PBool False),
                                  (py ''details'', PStr (py ''see log'')),
                                  (py ''errors'', PInt 3), (py ''warnings'', PInt 1)])]
       None True = Inr out
     \<and> length rows = 2
     \<and> rows ! 1 = ljust (py ''types'') 20 @ 32 # ljust (FAIL True) 19
                     @ 32 # ljust (py ''Errors: 3, Warnings: 1'') 50
     \<and> out = join [10] ([header_line 20 True, replicate 70 45] @ rows)"
proof -
  let ?d = "[(py ''status'', PBool False), (py ''details'', PStr (py ''see log'')),
             (py ''errors'', PInt 3), (py ''warnings'', PInt 1)]"
  let ?rs = "[(py ''lint'', Plain True), (py ''types'', Structured ?d)]"
  have e: "dict_get ?d (py ''errors'') (PInt 0) = PInt 3"
    and w: "dict_get ?d (py ''warnings'') (PInt 0) = PInt 1"
    and st: "dict_get ?d (py ''status'') (PBool False) = PBool False"
    by (simp_all add: dict_get_def py_def)
  have nz: "(3::int) \<noteq> 0 \<or> (1::int) \<noteq> 0" by simp
  have i: "1 < length ?rs" and ri: "?rs ! 1 = (py ''types'', Structured ?d)" by simp_all
  have cell: "py ''Errors: '' @ str_int 3 @ py '', Warnings: '' @ str_int 1
                = py ''Errors: 3, Warnings: 1''"
    by (simp add: str_int_def str_nat.simps py_def)
  have width: "max 20 (Max (set (map (\<lambda>(k, r). length k) ?rs)) + 2) = 20"
    by (simp add: py_def)
  have "\<not> isl (format_results_table True ?rs None True)" by code_simp
  then obtain out where out: "format_results_table True ?rs None True = Inr out"
    by (cases "format_results_table True ?rs None True") auto
  from table_errors_warnings_override [OF e w nz i ri out]
  obtain rows where "length rows = length ?rs"
    and "rows ! 1 = ljust (py ''types'') 20 @ 32 # ljust (FAIL True) 19
                     @ 32 # ljust (py ''Errors: 3, Warnings: 1'') 50"
    and "out = join [10] (title_lines None @ [header_line 20 True, replicate 70 45] @ rows)"
    unfolding width st cell by auto
  moreover have "length ?rs = 2" by simp
  moreover have "title_lines None @ [header_line 20 True, replicate 70 45] @ rows
                   = [header_line 20 True, replicate 70 45] @ rows"
    by (simp add: title_lines_def)
  ultimately have "length rows = 2
     \<and> rows ! 1 = ljust (py ''types'') 20 @ 32 # ljust (FAIL True) 19
                     @ 32 # ljust (py ''Errors: 3, Warnings: 1'') 50
     \<and> out = join [10] ([header_line 20 True, replicate 70 45] @ rows)"
    by (simp only: simp_thms)
  with out show ?thesis by blast
qed

text \<open>
  Claim C3, as the code has it. The details column is padded to 50 characters and never
  cut: for a structured entry whose details text is longer than 50 characters (and whose
  errors and warnings are absent or zero, so that the text is not overridden), the row of
  the entry in the table that \<open>format_results_table\<close> returns ends with the whole
  text.
\<close>

theorem table_details_in_full:
  assumes "dict_get result (py ''details'') (PStr []) = PStr s"
    and "\<not> truthy (dict_get result (py ''errors'') (PInt 0))"
    and "\<not> truthy (dict_get result (py ''warnings'') (PInt 0))"
    and "50 < length s"
    and "i < length results"
    and "results ! i = (tool, Structured result)"
    and "format_results_table ansi results title show_status = Inr out"
  shows "\<exists>w rows.
           w = max 20 (Max (set (map (\<lambda>(k, r). length k) results)) + 2)
         \<and> length rows = length results
         \<and> rows ! i = ljust tool w
                    @ (if show_status
                       then 32 # ljust (if truthy (dict_get result (py ''status'') (PBool False))
                                        then PASS ansi else FAIL ansi) 19
                       else [])
                    @ 32 # s
         \<and> out = join [10] (title_lines title
                             @ [header_line w show_status, replicate 70 45] @ rows)"
proof -
  have "table_row ansi w show_status (results ! i) =
          Inr (ljust tool w
                @ (if show_status
                   then 32 # ljust (if truthy (dict_get result (py ''status'') (PBool False))
                                    then PASS ansi else FAIL ansi) 19
                   else [])
                @ 32 # s)" for w
    unfolding assms(6) using assms(1-4) by (rule table_row_long_details)
  from format_results_table_row [OF assms(7) assms(5) this] show ?thesis by blast
qed

theorem table_details_in_full_witness:
  "\<exists>out rows.
     format_results_table True
       [(py ''lint'', Structured [(py ''status'', PBool True),
                                 (py ''details'', PStr (replicate 60 120))])]
       (Some (py ''Report'')) True = Inr out
     \<and> length rows = 1
     \<and> rows ! 0 = ljust (py ''lint'') 20 @ 32 # ljust (PASS True) 19 @ 32 # replicate 60 120
     \<and> out = join [10] ([10 # py ''Report'', replicate 70 61,
                          header_line 20 True, replicate 70 45] @ rows)"
proof -
  let ?d = "[(py ''status'', PBool True), (py ''details'', PStr (replicate 60 120))]"
  let ?rs = "[(py ''lint'', Structured ?d)]"
  have d: "dict_get ?d (py ''details'') (PStr []) = PStr (replicate 60 120)"
    and e: "\<not> truthy (dict_get ?d (py ''errors'') (PInt 0))"
    and w: "\<not> truthy (dict_get ?d (py ''warnings'') (PInt 0))"
    and st: "dict_get ?d (py ''status'') (PBool False) = PBool True"
    by (simp_all add: dict_get_def py_def)
  have n: "50 < length (replicate 60 (120::nat))" by simp
  have i: "0 < length ?rs" and ri: "?rs ! 0 = (py ''lint'', Structured ?d)" by simp_all
  have width: "max 20 (Max (set (map (\<lambda>(k, r). length k) ?rs)) + 2) = 20"
    by (simp add: py_def)
  have title: "title_lines (Some (py ''Report'')) = [10 # py ''Report'', replicate 70 61]"
    by (simp add: title_lines_def py_def)
  have "\<not> isl (format_results_table True ?rs (Some (py ''Report'')) True)" by code_simp
  then obtain out where
    out: "format_results_table True ?rs (Some (py ''Report'')) True = Inr out"
    by (cases "format_results_table True ?rs (Some (py ''Report'')) True") auto
  from table_details_in_full [OF d e w n i ri out]
  obtain rows where "length rows = length ?rs"
    and "rows ! 0 = ljust (py ''lint'') 20 @ 32 # ljust (PASS True) 19 @ 32 # replicate 60 120"
    and "out = join [10] (title_lines (Some (py ''Report''))
                          @ [header_line 20 True, replicate 70 45] @ rows)"
    unfolding width st by auto
  moreover have "length ?rs = 1" by simp
  moreover have "title_lines (Some (py ''Report'')) @ [header_line 20 True, replicate 70 45] @ rows
                   = [10 # py ''Report'', replicate 70 61,
                      header_line 20 True, replicate 70 45] @ rows"
    by (simp only: title append_Cons append_Nil)
  ultimately have "length rows = 1
     \<and> rows ! 0 = ljust (py ''lint'') 20 @ 32 # ljust (PASS True) 19 @ 32 # replicate 60 120
     \<and> out = join [10] ([10 # py ''Report'', replicate 70 61,
                          header_line 20 True, replicate 70 45] @ rows)"
    by (simp only: simp_thms)
  with out show ?thesis by blast
qed

text \<open>
  Claim C3 as stated fails: a details text of 51 characters is rendered in full. The
  table returned for it is the header, the rule and one row whose details column holds
  all 51 characters (the row has 92 characters with the name column of 20 and the status
  column); it is not the table whose row holds the text cut to 50.
\<close>

theorem table_details_truncation_counterexample:
  "format_results_table True
     [(py ''lint'', Structured [(py ''status'', PBool True),
                               (py ''details'', PStr (replicate 51 120))])] None True =
     Inr (join [10]
            [header_line 20 True, replicate 70 45,
             ljust (py ''lint'') 20 @ 32 # ljust (PASS True) 19 @ 32 # replicate 51 120])
   \<and> format_results_table True
     [(py ''lint'', Structured [(py ''status'', PBool True),
                               (py ''details'', PStr (replicate 51 120))])] None True \<noteq>
     Inr (join [10]
            [header_line 20 True, replicate 70 45,
             ljust (py ''lint'') 20 @ 32 # ljust (PASS True) 19
               @ 32 # take 50 (replicate 51 120)])
   \<and> length (ljust (py ''lint'') 20 @ 32 # ljust (PASS True) 19 @ 32 # replicate 51 120) = 92"
  by code_simp

text \<open>
  Claim C10. A structured entry without a \<open>status\<close> key is accepted and handled exactly
  as the same entry with \<open>status\<close> set to false: \<open>summarize_results\<close> and
  \<open>format_results_table\<close> give the same outcome for both. In the summary it adds one to
  \<open>failed\<close> and nothing to \<open>passed\<close>; in the table that \<open>format_results_table\<close>
  returns with the status column, the row of the entry is its name, the fail glyph in the
  status column and the details cell.
\<close>

theorem missing_status_is_failure:
  assumes "map_of result (py ''status'') = None"
  shows "summarize_results (pre @ (tool, Structured result) # post) =
           summarize_results (pre @ (tool, Structured ((py ''status'', PBool False) # result)) # post)
     \<and> format_results_table ansi (pre @ (tool, Structured result) # post) title show_status =
           format_results_table ansi
             (pre @ (tool, Structured ((py ''status'', PBool False) # result)) # post)
             title show_status
     \<and> (\<forall>s. summarize_results (pre @ (tool, Structured result) # post) = Inr s \<longrightarrow>
            (\<exists>s'. summarize_results (pre @ post) = Inr s'
                  \<and> failed s = failed s' + 1 \<and> passed s = passed s'))
     \<and> (\<forall>out. format_results_table ansi (pre @ (tool, Structured result) # post) title True
                  = Inr out \<longrightarrow>
            (\<exists>w rows cell.
                 w = max 20 (Max (set (map (\<lambda>(k, r). length k) (pre @ (tool, Structured result) # post))) + 2)
               \<and> length rows = length pre + 1 + length post
               \<and> format_left (entry_details (Structured result)) 50 = Inr cell
               \<and> rows ! length pre = ljust tool w @ 32 # ljust (FAIL ansi) 19 @ 32 # cell
               \<and> out = join [10] (title_lines title
                                   @ [header_line w True, replicate 70 45] @ rows)))"
proof -
  let ?e = "(tool, Structured result)"
  let ?e' = "(tool, Structured ((py ''status'', PBool False) # result))"
  from assms have st: "dict_get result (py ''status'') (PBool False) = PBool False"
    by (simp add: dict_get_def)
  have step: "summarize_step c ?e = summarize_step c ?e'" for c
    by (simp add: summarize_step_Structured dict_get_Cons py_keys_distinct st
             del: summarize_step.simps cong: sum.case_cong)
  have row: "table_row ansi w flag ?e = table_row ansi w flag ?e'" for w flag
    by (simp add: table_row_eq dict_get_Cons py_keys_distinct st cong: sum.case_cong)
  have 1: "summarize_results (pre @ ?e # post) = summarize_results (pre @ ?e' # post)"
    using step by (rule summarize_results_replace)
  have 2: "format_results_table ansi (pre @ ?e # post) title show_status =
           format_results_table ansi (pre @ ?e' # post) title show_status"
    by (simp add: format_results_table_def table_lines_replace [OF row])
  have 3: "\<exists>s'. summarize_results (pre @ post) = Inr s'
                  \<and> failed s = failed s' + 1 \<and> passed s = passed s'"
    if s: "summarize_results (pre @ ?e # post) = Inr s" for s
  proof -
    let ?c0 = "\<lparr>c_passed = 0, c_failed = 0, c_errors = 0, c_warnings = 0\<rparr>"
    from s obtain c3 where l: "summarize_loop ?c0 (pre @ ?e # post) = Inr c3"
      and s3: "failed s = c_failed c3" "passed s = c_passed c3"
      by (auto simp: summarize_results_def Let_def split: sum.splits)
    from l obtain c1 c2 where l1: "summarize_loop ?c0 pre = Inr c1"
      and l2: "summarize_step c1 ?e = Inr c2" and l3: "summarize_loop c2 post = Inr c3"
      by (auto simp: summarize_loop_append simp del: summarize_step.simps split: sum.splits)
    from summarize_step_counts [OF l2] st
    have c2: "c_passed c2 = c_passed c1" "c_failed c2 = c_failed c1 + 1" by simp_all
    let ?c4 = "\<lparr>c_passed = c_passed c1 + (c_passed c3 - c_passed c2),
                 c_failed = c_failed c1 + (c_failed c3 - c_failed c2),
                 c_errors = c_errors c1 + (c_errors c3 - c_errors c2),
                 c_warnings = c_warnings c1 + (c_warnings c3 - c_warnings c2)\<rparr>"
    have l4: "summarize_loop c1 post = Inr ?c4" using l3 by (rule summarize_loop_shift)
    have "summarize_loop ?c0 (pre @ post) = Inr ?c4"
      by (simp add: summarize_loop_append l1 l4)
    then obtain s' where "summarize_results (pre @ post) = Inr s'"
      and "failed s' = c_failed ?c4" "passed s' = c_passed ?c4"
      by (simp add: summarize_results_def Let_def)
    with s3 c2 show ?thesis by simp
  qed
  have 4: "\<exists>w rows cell.
                 w = max 20 (Max (set (map (\<lambda>(k, r). length k) (pre @ (tool, Structured result) # post))) + 2)
               \<and> length rows = length pre + 1 + length post
               \<and> format_left (entry_details (Structured result)) 50 = Inr cell
               \<and> rows ! length pre = ljust tool w @ 32 # ljust (FAIL ansi) 19 @ 32 # cell
               \<and> out = join [10] (title_lines title
                                   @ [header_line w True, replicate 70 45] @ rows)"
    if o: "format_results_table ansi (pre @ ?e # post) title True = Inr out" for out
  proof -
    define w where "w = max 20 (Max (set (map (\<lambda>(k, r). length k) (pre @ (tool, Structured result) # post))) + 2)"
    from format_results_table_Inr [OF o] obtain rows where
      rows: "table_rows ansi w True (pre @ ?e # post) = Inr rows"
      and out: "out = join [10] (title_lines title
                                 @ [header_line w True, replicate 70 45] @ rows)"
      unfolding w_def by blast
    from table_rows_nth [OF rows]
    have len: "length rows = length (pre @ ?e # post)"
      and nth: "\<forall>i<length (pre @ ?e # post).
                  table_row ansi w True ((pre @ ?e # post) ! i) = Inr (rows ! i)"
      by blast+
    have "length pre < length (pre @ ?e # post)" by simp
    with nth have "table_row ansi w True ((pre @ ?e # post) ! length pre)
                     = Inr (rows ! length pre)"
      by blast
    then have r: "table_row ansi w True ?e = Inr (rows ! length pre)"
      by (simp only: nth_append_length)
    from r st obtain cell where
      cell: "format_left (entry_details (Structured result)) 50 = Inr cell"
      and "Inr (ljust tool w @ 32 # ljust (FAIL ansi) 19 @ 32 # cell) =
             (Inr (rows ! length pre) :: py_error + pystr)"
      by (auto simp: table_row_eq split: sum.splits)
    then have "rows ! length pre = ljust tool w @ 32 # ljust (FAIL ansi) 19 @ 32 # cell"
      by (simp only: sum.inject)
    moreover from len have "length rows = length pre + 1 + length post" by simp
    ultimately show ?thesis using cell out w_def by blast
  qed
  from 1 2 3 4 show ?thesis by blast
qed

theorem missing_status_is_failure_witness:
  "map_of [(py ''details'', PStr (py ''skipped''))] (py ''status'') = None
   \<and> summarize_results
       [(py ''lint'', Plain True), (py ''types'', Structured [(py ''details'', PStr (py ''skipped''))])] =
     Inr \<lparr>total = 2, passed = 1, failed = 1, success_rate = 50,
          total_errors = 0, total_warnings = 0\<rparr>
   \<and> (\<exists>s'. summarize_results [(py ''lint'', Plain True)] = Inr s'
            \<and> (1::int) = failed s' + 1 \<and> (1::int) = passed s')
   \<and> (\<exists>out rows.
         format_results_table True
           [(py ''lint'', Plain True),
            (py ''types'', Structured [(py ''details'', PStr (py ''skipped''))])] None True
           = Inr out
         \<and> length rows = 2
         \<and> rows ! 1 = ljust (py ''types'') 20 @ 32 # ljust (FAIL True) 19
                         @ 32 # ljust (py ''skipped'') 50
         \<and> out = join [10] ([header_line 20 True, replicate 70 45] @ rows))"
proof -
  let ?d = "[(py ''details'', PStr (py ''skipped''))]"
  let ?rs = "[(py ''lint'', Plain True), (py ''types'', Structured ?d)]"
  have m: "map_of ?d (py ''status'') = None" by (simp add: py_def)
  have app: "[(py ''lint'', Plain True)] @ (py ''types'', Structured ?d) # [] = ?rs"
    and app': "[(py ''lint'', Plain True)] @ [] = [(py ''lint'', Plain True)]"
    by simp_all
  note t = missing_status_is_failure
             [OF m, of "[(py ''lint'', Plain True)]" "py ''types''" "[]" True None True,
              unfolded app app']
  have s: "summarize_results ?rs =
     Inr \<lparr>total = 2, passed = 1, failed = 1, success_rate = 50,
          total_errors = 0, total_warnings = 0\<rparr>"
    by code_simp
  from t s have a: "\<exists>s'. summarize_results [(py ''lint'', Plain True)] = Inr s'
            \<and> (1::int) = failed s' + 1 \<and> (1::int) = passed s'"
    by (elim conjE allE [where x = "\<lparr>total = 2, passed = 1, failed = 1, success_rate = 50,
          total_errors = 0, total_warnings = 0\<rparr>"]) simp
  have width: "max 20 (Max (set (map (\<lambda>(k, r). length k) ?rs)) + 2) = 20"
    by (simp add: py_def)
  have cell: "format_left (entry_details (Structured ?d)) 50 = Inr (ljust (py ''skipped'') 50)"
    by (simp add: dict_get_def py_def)
  have "\<not> isl (format_results_table True ?rs None True)" by code_simp
  then obtain out where o: "format_results_table True ?rs None True = Inr out"
    by (cases "format_results_table True ?rs None True") auto
  note t4 = t [THEN conjunct2, THEN conjunct2, THEN conjunct2, rule_format, OF o]
  from t4 obtain w rows c where w: "w = 20"
    and r1: "length rows = length [(py ''lint'', Plain True)] + 1 + length ([] :: result_set)"
    and r2: "format_left (entry_details (Structured ?d)) 50 = Inr c"
    and r3: "rows ! length [(py ''lint'', Plain True)] =
           ljust (py ''types'') w @ 32 # ljust (FAIL True) 19 @ 32 # c"
    and r4: "out = join [10] (title_lines None @ [header_line w True, replicate 70 45] @ rows)"
    unfolding width by blast
  note r1 r2 r3 [unfolded w] r4 [unfolded w]
  moreover have "length [(py ''lint'', Plain True)] + 1 + length ([] :: result_set) = 2"
    and "length [(py ''lint'', Plain True)] = 1" by simp_all
  moreover have "title_lines None @ [header_line 20 True, replicate 70 45] @ rows
                   = [header_line 20 True, replicate 70 45] @ rows"
    by (simp add: title_lines_def)
  ultimately have "length rows = 2
         \<and> rows ! 1 = ljust (py ''types'') 20 @ 32 # ljust (FAIL True) 19
                         @ 32 # ljust (py ''skipped'') 50
         \<and> out = join [10] ([header_line 20 True, replicate 70 45] @ rows)"
    using cell by (simp only: simp_thms sum.inject)
  with m s a o show ?thesis by blast
qed

section \<open>Lemmas on the JSON rendering\<close>












































section \<open>Properties of the JSON rendering\<close>




end
